theory Spec2Isabelle
  imports Complex_Main "HOL-Library.Multiset"
begin

section \<open>JavaScript built-ins used by the code\<close>

text \<open>
  Strings are HOL strings, ids are natural numbers, and the other numbers (delays, pp,
  accuracy, star rating) are reals. A value that can be \<^verbatim>\<open>null\<close> (a nullable column of the
  database, a nullable field of a payload) is an option, with \<open>None\<close> for \<^verbatim>\<open>null\<close>.
  Exceptions are values of the type \<open>error\<close>; a function that can throw returns
  \<open>error + 'a\<close> with \<open>Inl\<close> for the thrown error.
\<close>

datatype error =
    TypeError string
  | RangeError string
  | SqliteError string
  | FetchError string

fun isTypeError :: "error \<Rightarrow> bool" where
  "isTypeError (TypeError m) = True"
| "isTypeError e = False"

text \<open>\<^verbatim>\<open>xs.join()\<close>: the elements separated by commas.\<close>

fun join :: "string list \<Rightarrow> string" where
  "join [] = []"
| "join [x] = x"
| "join (x # y # ys) = x @ '','' @ join (y # ys)"

text \<open>\<^verbatim>\<open>s.replaceAll(',', '')\<close>: every comma removed.\<close>

definition replaceAll_comma :: "string \<Rightarrow> string" where
  "replaceAll_comma s = filter (\<lambda>c. c \<noteq> CHR '','') s"

text \<open>\<^verbatim>\<open>s.replace(pat, rep)\<close> with a string pattern: the first occurrence only.\<close>

fun replace :: "string \<Rightarrow> string \<Rightarrow> string \<Rightarrow> string" where
  "replace [] pat rep = (if pat = [] then rep else [])"
| "replace (c # cs) pat rep =
     (if take (length pat) (c # cs) = pat then rep @ drop (length pat) (c # cs)
      else c # replace cs pat rep)"

text \<open>\<^verbatim>\<open>xs.indexOf(a)\<close>: the first index of \<open>a\<close>, or \<open>-1\<close>.\<close>

fun indexOf :: "'a list \<Rightarrow> 'a \<Rightarrow> int" where
  "indexOf [] a = - 1"
| "indexOf (x # xs) a =
     (if x = a then 0 else (let i = indexOf xs a in if i = - 1 then - 1 else i + 1))"

text \<open>
  \<^verbatim>\<open>xs.sort(cmp)\<close>: a stable sort (as ECMAScript requires since 2019); \<open>cmp a b \<le> 0\<close> keeps
  \<open>a\<close> before \<open>b\<close>. The order of the result is the one every stable sort gives for a
  comparator that is a consistent ordering, as both comparators of the code are.
\<close>

fun insert_by :: "('a \<Rightarrow> 'a \<Rightarrow> 'b::{linorder,zero}) \<Rightarrow> 'a \<Rightarrow> 'a list \<Rightarrow> 'a list" where
  "insert_by cmp x [] = [x]"
| "insert_by cmp x (y # ys) = (if cmp x y \<le> 0 then x # y # ys else y # insert_by cmp x ys)"

definition sort_by :: "('a \<Rightarrow> 'a \<Rightarrow> 'b::{linorder,zero}) \<Rightarrow> 'a list \<Rightarrow> 'a list" where
  "sort_by cmp xs = foldr (insert_by cmp) xs []"

text \<open>The number that an arithmetic operator reads from an operand: \<^verbatim>\<open>null\<close> counts as 0.\<close>

fun toNumber :: "real option \<Rightarrow> real" where
  "toNumber None = 0"
| "toNumber (Some x) = x"

text \<open>
  \<^verbatim>\<open>s.match(/.{1,2}/g) || []\<close>: the string cut from the left into pieces of two characters
  (the last piece may have one); \<open>.\<close> does not match a line terminator, which ends the current
  piece and belongs to none. Of the line terminators of JavaScript a HOL string can hold the
  line feed and the carriage return.
\<close>

definition lineTerminator :: "char \<Rightarrow> bool" where
  "lineTerminator c = (c = CHR 0x0A \<or> c = CHR 0x0D)"

fun match_1_2 :: "string \<Rightarrow> string list" where
  "match_1_2 [] = []"
| "match_1_2 [c] = (if lineTerminator c then [] else [[c]])"
| "match_1_2 (c # d # cs) =
     (if lineTerminator c then match_1_2 (d # cs)
      else if lineTerminator d then [c] # match_1_2 cs
      else [c, d] # match_1_2 cs)"

section \<open>util/Common.ts\<close>

text \<open>
  A string enum is the list of its members in declaration order, each a pair of the member's
  name and its value; \<^verbatim>\<open>for (const key in E)\<close> runs through the names in this order.
\<close>

definition OsuMod :: "(string \<times> string) list" where
  "OsuMod =
    [(''EZ'', ''EZ''), (''NF'', ''NF''), (''HT'', ''HT''), (''SO'', ''SO''), (''HR'', ''HR''),
     (''SD'', ''SD''), (''PF'', ''PF''), (''DT'', ''DT''), (''NC'', ''NC''), (''HD'', ''HD''),
     (''FL'', ''FL'')]"

definition MORMod :: "(string \<times> string) list" where
  "MORMod =
    [(''NM'', ''NM''), (''DT'', ''DT''), (''HR'', ''HR''), (''HD'', ''HD''), (''EZ'', ''EZ''),
     (''HT'', ''HT''), (''FL'', ''FL''), (''HDDT'', ''HDDT''), (''HRDT'', ''HRDT''),
     (''EZDT'', ''EZDT''), (''DTFL'', ''DTFL''), (''EZHT'', ''EZHT''), (''HDHR'', ''HDHR''),
     (''HDHT'', ''HDHT''), (''EZHD'', ''EZHD''), (''HRHT'', ''HRHT''), (''EZFL'', ''EZFL''),
     (''HRFL'', ''HRFL''), (''HTFL'', ''HTFL''), (''HDFL'', ''HDFL''), (''HDHRDT'', ''HDHRDT''),
     (''HDDTFL'', ''HDDTFL''), (''EZHDDT'', ''EZHDDT''), (''HRDTFL'', ''HRDTFL''),
     (''EZDTFL'', ''EZDTFL''), (''HDHTFL'', ''HDHTFL''), (''HDHRHT'', ''HDHRHT''),
     (''HRHTFL'', ''HRHTFL''), (''EZHDHT'', ''EZHDHT''), (''EZHTFL'', ''EZHTFL''),
     (''EZHDFL'', ''EZHDFL''), (''HDHRFL'', ''HDHRFL''), (''HDHRDTFL'', ''HDHRDTFL''),
     (''EZHDDTFL'', ''EZHDDTFL''), (''EZHDHTFL'', ''EZHDHTFL''), (''HDHRHTFL'', ''HDHRHTFL'')]"

definition MORMod_keys :: "string list" where
  "MORMod_keys = map fst MORMod"

text \<open>
  \<^verbatim>\<open>stringToOsuMod\<close> and \<^verbatim>\<open>stringToMORMod\<close>: the loop over the members returns the first
  value equal to \<open>s\<close>; without one, a TypeError is thrown.
\<close>

fun enumValue :: "(string \<times> string) list \<Rightarrow> string \<Rightarrow> string option" where
  "enumValue [] s = None"
| "enumValue ((key, m) # rest) s = (if s = m then Some m else enumValue rest s)"

definition stringToOsuMod :: "string \<Rightarrow> error + string" where
  "stringToOsuMod s =
     (case enumValue OsuMod s of
        Some m \<Rightarrow> Inr m
      | None \<Rightarrow> Inl (TypeError (''stringToOsuMod - '' @ s @ '' has no associated OsuMod!'')))"

definition stringToMORMod :: "string \<Rightarrow> error + string" where
  "stringToMORMod s =
     (case enumValue MORMod s of
        Some m \<Rightarrow> Inr m
      | None \<Rightarrow> Inl (TypeError (''stringToMORMod - '' @ s @ '' has no associated MORMod!'')))"

definition modOrder :: "string list" where
  "modOrder = [''NF'', ''EZ'', ''HD'', ''HR'', ''SD'', ''DT'', ''NC'', ''HT'', ''FL'', ''SO'', ''PF'']"

definition modCompare :: "string \<Rightarrow> string \<Rightarrow> int" where
  "modCompare a b =
     (let aIdx = indexOf modOrder a; bIdx = indexOf modOrder b
      in if aIdx = - 1 \<and> bIdx = - 1 then 0
         else if aIdx = - 1 then 1
         else if bIdx = - 1 then - 1
         else aIdx - bIdx)"

definition sortOsuMods :: "string list \<Rightarrow> string list" where
  "sortOsuMods mods = sort_by modCompare (filter (\<lambda>m. m \<noteq> ''NM'') mods)"

definition convertOsuMods :: "string list \<Rightarrow> error + string" where
  "convertOsuMods mods =
     (let sortedMods = sortOsuMods mods;
          pMods = replaceAll_comma (join sortedMods);
          pMods = replace pMods ''NC'' ''DT'';
          pMods = replace pMods ''NF'' '''';
          pMods = replace pMods ''SO'' '''';
          pMods = replace pMods ''SD'' '''';
          pMods = replace pMods ''PF'' '''';
          pMods = (if pMods = '''' then ''NM'' else pMods)
      in stringToMORMod pMods)"

definition modStringToArray :: "string \<Rightarrow> string list" where
  "modStringToArray mods = match_1_2 mods"

definition affectsStarRating :: "string list \<Rightarrow> bool" where
  "affectsStarRating mods =
     (''DT'' \<in> set mods \<or> ''HR'' \<in> set mods \<or> ''EZ'' \<in> set mods \<or> ''HT'' \<in> set mods \<or>
      ''FL'' \<in> set mods)"

section \<open>util/MORConfig.ts\<close>



section \<open>OsuWrapper.ts\<close>














subsection \<open>The revision with a token expiry clock (src/OsuWrapper.ts)\<close>




subsection \<open>The revision that refreshes the token on 401\<close>











section \<open>DatabaseManager.ts\<close>

record MORUser =
  userID :: nat
  username :: string
  countryCode :: string
  globalRank :: "int option"
  pp :: real
  accuracy :: real
  playtime :: int
  playcount :: int
  rankedScore :: int
  maxCombo :: int
  replaysWatched :: int
  pfpImageURL :: string
  top1s :: nat
  top2s :: nat
  top3s :: nat
  autotrack :: bool

text \<open>
  A row of a table of scores. The three ids are declared \<^verbatim>\<open>NOT NULL\<close>; the other columns
  are nullable, and the code expects \<^verbatim>\<open>null\<close> there (the bot tests the pp of a stored score
  with \<^verbatim>\<open>isNull\<close>).
\<close>

record MORScore =
  scoreID :: nat
  userID :: nat
  beatmapID :: nat
  username :: "string option"
  beatmap :: "string option"
  mods :: "string option"
  pp :: "real option"
  accuracy :: "real option"
  starRating :: "real option"
  date :: "string option"
  beatmapImageURL :: "string option"

text \<open>
  The SQLite file: the table USERS and one table of scores for each key of \<^verbatim>\<open>MORMod\<close>, which
  the constructor creates. A table is the list of its rows in insertion order, which is the
  order in which SQLite returns them from a scan. Of the driver's errors the model has the
  violations of the constraints that the constructor declares; a failure of the file system
  is not modelled.
\<close>

record database =
  USERS :: "MORUser list"
  tables :: "string \<Rightarrow> MORScore list"

definition emptyDatabase :: database where
  "emptyDatabase = \<lparr>USERS = [], tables = (\<lambda>key. [])\<rparr>"

text \<open>\<^verbatim>\<open>s.includes(pat)\<close>.\<close>

fun includes_string :: "string \<Rightarrow> string \<Rightarrow> bool" where
  "includes_string [] pat = (pat = [])"
| "includes_string (c # cs) pat = (take (length pat) (c # cs) = pat \<or> includes_string cs pat)"

text \<open>
  SQL on a nullable column. A comparison with NULL is NULL: \<^verbatim>\<open>a = b\<close> holds only for two
  values that are not NULL and equal, and \<^verbatim>\<open>CHECK (column >= 0)\<close> is violated only by a
  value that is not NULL and negative.
\<close>

fun sql_eq :: "'a option \<Rightarrow> 'a option \<Rightarrow> bool" where
  "sql_eq (Some a) (Some b) = (a = b)"
| "sql_eq a b = False"

fun sql_check_ge_0 :: "real option \<Rightarrow> bool" where
  "sql_check_ge_0 None = True"
| "sql_check_ge_0 (Some x) = (x \<ge> 0)"

text \<open>
  \<^verbatim>\<open>INSERT INTO\<close> a table of scores: the message of the error, or the new rows. SQLite
  tests the CHECK constraints of the table before the uniqueness of the primary key.
\<close>

definition sqlite_insert_score :: "string \<Rightarrow> MORScore list \<Rightarrow> MORScore \<Rightarrow> string + MORScore list" where
  "sqlite_insert_score tableName rows score =
     (if \<not> sql_check_ge_0 (MORScore.pp score) then
        Inl ''SQLITE_CONSTRAINT: CHECK constraint failed: pp >= 0''
      else if \<not> sql_check_ge_0 (MORScore.accuracy score) then
        Inl ''SQLITE_CONSTRAINT: CHECK constraint failed: accuracy >= 0''
      else if \<not> sql_check_ge_0 (starRating score) then
        Inl ''SQLITE_CONSTRAINT: CHECK constraint failed: starRating >= 0''
      else if scoreID score \<in> set (map scoreID rows) then
        Inl (''SQLITE_CONSTRAINT: UNIQUE constraint failed: '' @ tableName @ ''.scoreID'')
      else Inr (rows @ [score]))"

definition getAutotrackUserIDs :: "database \<Rightarrow> nat list" where
  "getAutotrackUserIDs db = map MORUser.userID (filter autotrack (USERS db))"

text \<open>
  \<^verbatim>\<open>insertScore\<close>. The name of the table is computed first; on a score whose \<open>mods\<close> is
  \<^verbatim>\<open>null\<close>, \<^verbatim>\<open>modStringToArray\<close> calls \<^verbatim>\<open>match\<close> on \<^verbatim>\<open>null\<close>, which throws a TypeError.
\<close>

definition insertScore :: "database \<Rightarrow> MORScore \<Rightarrow> error + database" where
  "insertScore db score =
     (case (case mods score of
              None \<Rightarrow> Inl (TypeError ''Cannot read properties of null'')
            | Some m \<Rightarrow> convertOsuMods (modStringToArray m)) of
        Inl e \<Rightarrow> Inl e
      | Inr tableName \<Rightarrow>
          (case sqlite_insert_score tableName (tables db tableName) score of
             Inl message \<Rightarrow> if includes_string message ''UNIQUE'' then Inr db else Inl (SqliteError message)
           | Inr rows \<Rightarrow> Inr (db\<lparr>tables := (tables db)(tableName := rows)\<rparr>)))"

text \<open>
  \<^verbatim>\<open>getDuplicateScores\<close>: the self-join; a row is returned once for each other row that
  the condition of the join pairs it with. The condition compares every column but
  \<^verbatim>\<open>scoreID\<close> with \<^verbatim>\<open>=\<close>, so it pairs no row in which one of the nullable columns is NULL.
\<close>

definition duplicateOf :: "MORScore \<Rightarrow> MORScore \<Rightarrow> bool" where
  "duplicateOf t1 t2 =
     (MORScore.userID t1 = MORScore.userID t2 \<and> beatmapID t1 = beatmapID t2 \<and>
      sql_eq (MORScore.username t1) (MORScore.username t2) \<and> sql_eq (beatmap t1) (beatmap t2) \<and>
      sql_eq (mods t1) (mods t2) \<and> sql_eq (MORScore.pp t1) (MORScore.pp t2) \<and>
      sql_eq (MORScore.accuracy t1) (MORScore.accuracy t2) \<and>
      sql_eq (starRating t1) (starRating t2) \<and>
      sql_eq (date t1) (date t2) \<and> sql_eq (beatmapImageURL t1) (beatmapImageURL t2) \<and>
      scoreID t1 \<noteq> scoreID t2)"

definition getDuplicateScores :: "database \<Rightarrow> string \<Rightarrow> MORScore list" where
  "getDuplicateScores db tableName =
     concat (map (\<lambda>t1. map (\<lambda>t2. t1) (filter (duplicateOf t1) (tables db tableName)))
                 (tables db tableName))"

definition scoreExistsInTable :: "database \<Rightarrow> nat \<Rightarrow> string \<Rightarrow> bool" where
  "scoreExistsInTable db sid tableName =
     (length (filter (\<lambda>row. scoreID row = sid) (tables db tableName)) > 0)"

definition removeScore :: "database \<Rightarrow> nat \<Rightarrow> string \<Rightarrow> database" where
  "removeScore db sid tableName =
     db\<lparr>tables := (tables db)(tableName := filter (\<lambda>row. scoreID row \<noteq> sid) (tables db tableName))\<rparr>"

definition getTableScores :: "database \<Rightarrow> string \<Rightarrow> MORScore list" where
  "getTableScores db tableName = tables db tableName"

definition getUsers :: "database \<Rightarrow> MORUser list" where
  "getUsers db = USERS db"

text \<open>\<^verbatim>\<open>UPDATE USERS SET ... WHERE userID = ?\<close>, under the CHECK constraints of USERS.\<close>

definition sqlite_check_user :: "MORUser \<Rightarrow> string option" where
  "sqlite_check_user user =
     (if \<not> MORUser.pp user \<ge> 0 then Some ''SQLITE_CONSTRAINT: CHECK constraint failed: pp >= 0''
      else if \<not> MORUser.accuracy user \<ge> 0 then
        Some ''SQLITE_CONSTRAINT: CHECK constraint failed: accuracy >= 0''
      else if \<not> top1s user \<le> length MORMod_keys then
        Some ''SQLITE_CONSTRAINT: CHECK constraint failed: top1s''
      else if \<not> top2s user \<le> length MORMod_keys then
        Some ''SQLITE_CONSTRAINT: CHECK constraint failed: top2s''
      else if \<not> top3s user \<le> length MORMod_keys then
        Some ''SQLITE_CONSTRAINT: CHECK constraint failed: top3s''
      else None)"

definition updateUser :: "database \<Rightarrow> MORUser \<Rightarrow> error + database" where
  "updateUser db user =
     (if MORUser.userID user \<in> set (map MORUser.userID (USERS db)) then
        (case sqlite_check_user user of
           Some message \<Rightarrow> Inl (SqliteError message)
         | None \<Rightarrow>
             Inr (db\<lparr>USERS := map (\<lambda>row. if MORUser.userID row = MORUser.userID user then user
                                          else row) (USERS db)\<rparr>))
      else Inr db)"

definition removeUser :: "database \<Rightarrow> nat \<Rightarrow> database" where
  "removeUser db uid = db\<lparr>USERS := filter (\<lambda>row. MORUser.userID row \<noteq> uid) (USERS db)\<rparr>"

text \<open>\<^verbatim>\<open>removeUserScores\<close>: one \<^verbatim>\<open>DELETE\<close> for each key of \<^verbatim>\<open>MORMod\<close>.\<close>

definition removeUserScores :: "database \<Rightarrow> nat \<Rightarrow> database" where
  "removeUserScores db uid =
     fold (\<lambda>key d. d\<lparr>tables := (tables d)(key := filter (\<lambda>row. MORScore.userID row \<noteq> uid)
                                                        (tables d key))\<rparr>)
          MORMod_keys db"

section \<open>Bot.ts\<close>

text \<open>
  What \<^verbatim>\<open>removeUserCmd\<close> does to the database; \<^verbatim>\<open>toLowerCase\<close> is a parameter.
\<close>

definition removeUserCmd :: "(string \<Rightarrow> string) \<Rightarrow> database \<Rightarrow> string \<Rightarrow> bool \<Rightarrow> database" where
  "removeUserCmd toLowerCase db name removeScores =
     (case find (\<lambda>u. toLowerCase (MORUser.username u) = toLowerCase name) (getUsers db) of
        None \<Rightarrow> db
      | Some dbUser \<Rightarrow>
          (let db1 = removeUser db (MORUser.userID dbUser)
           in if removeScores then removeUserScores db1 (MORUser.userID dbUser) else db1))"


section \<open>DatabaseUpdater.ts\<close>

text \<open>
  The payloads of the osu!API, with the fields that the code reads (a nested field
  \<^verbatim>\<open>score.beatmap.id\<close> is \<open>score_beatmap_id\<close>, and so on). The pp of a score and the
  global rank of a user are nullable there.
\<close>

record osuScore =
  score_id :: nat
  score_user_id :: nat
  score_user_username :: string
  score_beatmap_id :: nat
  score_beatmap_version :: string
  score_beatmap_difficulty_rating :: real
  score_beatmapset_artist :: string
  score_beatmapset_title :: string
  score_beatmapset_covers_list2x :: string
  score_mods :: "string list"
  score_pp :: "real option"
  score_accuracy :: real
  score_created_at :: string

record osuUser =
  user_id :: nat
  user_username :: string
  user_country_code :: string
  user_global_rank :: "int option"
  user_pp :: real
  user_hit_accuracy :: real
  user_play_time :: int
  user_play_count :: int
  user_ranked_score :: int
  user_maximum_combo :: int
  user_replays_watched_by_others :: int
  user_avatar_url :: string

datatype OsuScoreType = BEST | FIRST | RECENT | PINNED

text \<open>
  The osu!API as the updater sees it: what each public method of \<^verbatim>\<open>OsuWrapper\<close> gives for
  its arguments, that is the outcome of the \<^verbatim>\<open>makeRequest\<close> behind it: an error thrown, or
  the parsed body, or \<^verbatim>\<open>undefined\<close> (\<open>None\<close>) after a 404. The methods are taken to return, and
  to answer the same question in the same way during one run.
\<close>

record OsuClient =
  osu_getScore :: "nat \<Rightarrow> error + osuScore option"
  osu_getUserScores :: "nat \<Rightarrow> OsuScoreType \<Rightarrow> error + osuScore list option"
  osu_getUsers :: "nat list \<Rightarrow> error + osuUser list option"
  osu_getBeatmapAttributes :: "nat \<Rightarrow> string list \<Rightarrow> error + real option"

definition getMORBeatmapString :: "osuScore \<Rightarrow> string" where
  "getMORBeatmapString score =
     score_beatmapset_artist score @ '' - '' @ score_beatmapset_title score @ '' ['' @
     score_beatmap_version score @ '']''"

text \<open>\<^verbatim>\<open>xs.map(f)\<close> for an \<open>f\<close> that can throw.\<close>

fun map_throwing :: "('a \<Rightarrow> error + 'b) \<Rightarrow> 'a list \<Rightarrow> error + 'b list" where
  "map_throwing f [] = Inr []"
| "map_throwing f (x # xs) =
     (case f x of
        Inl e \<Rightarrow> Inl e
      | Inr y \<Rightarrow> (case map_throwing f xs of Inl e \<Rightarrow> Inl e | Inr ys \<Rightarrow> Inr (y # ys)))"

definition modifiedStarRating :: "OsuClient \<Rightarrow> osuScore \<Rightarrow> error + real" where
  "modifiedStarRating osu score =
     (if affectsStarRating (score_mods score) then
        (case map_throwing stringToOsuMod (score_mods score) of
           Inl e \<Rightarrow> Inl e
         | Inr osuMods \<Rightarrow>
             (case osu_getBeatmapAttributes osu (score_beatmap_id score) osuMods of
                Inl e \<Rightarrow> Inl e
              | Inr None \<Rightarrow> Inl (TypeError ''Cannot read properties of undefined'')
              | Inr (Some star_rating) \<Rightarrow> Inr star_rating))
      else Inr (score_beatmap_difficulty_rating score))"

definition osuScoreToMORScore :: "OsuClient \<Rightarrow> osuScore \<Rightarrow> error + MORScore" where
  "osuScoreToMORScore osu score =
     (case modifiedStarRating osu score of
        Inl e \<Rightarrow> Inl e
      | Inr sr \<Rightarrow>
          Inr \<lparr>scoreID = score_id score,
               userID = score_user_id score,
               beatmapID = score_beatmap_id score,
               username = Some (score_user_username score),
               beatmap = Some (getMORBeatmapString score),
               mods = Some (replaceAll_comma (join (score_mods score))),
               pp = score_pp score,
               accuracy = Some (score_accuracy score),
               starRating = Some sr,
               date = Some (score_created_at score),
               beatmapImageURL = Some (score_beatmapset_covers_list2x score)\<rparr>)"

subsection \<open>getNewScores\<close>

text \<open>
  How a loop body ends: it went on to the next iteration, it executed \<^verbatim>\<open>return\<close>, or it
  threw an error.
\<close>

datatype completion = Normal database | Returned database | Thrown error

text \<open>
  The loop over the scores of one user. \<open>None\<close> stands for the \<^verbatim>\<open>return\<close> in the
  \<^verbatim>\<open>catch\<close> block; an error that is not a TypeError is swallowed there and leaves
  \<^verbatim>\<open>scoreExists\<close> undefined, which \<^verbatim>\<open>!scoreExists\<close> reads as false.
\<close>

fun getNewScores_scores :: "OsuClient \<Rightarrow> osuScore list \<Rightarrow> database \<Rightarrow> completion" where
  "getNewScores_scores osu [] db = Normal db"
| "getNewScores_scores osu (userScore # rest) db =
     (case (case convertOsuMods (score_mods userScore) of
              Inl error \<Rightarrow> if isTypeError error then None else Some False
            | Inr tableName \<Rightarrow> Some (scoreExistsInTable db (score_id userScore) tableName)) of
        None \<Rightarrow> Returned db
      | Some scoreExists \<Rightarrow>
          if \<not> scoreExists then
            (case osuScoreToMORScore osu userScore of
               Inl e \<Rightarrow> Thrown e
             | Inr dbScore \<Rightarrow>
                 (case insertScore db dbScore of
                    Inl e \<Rightarrow> Thrown e
                  | Inr db' \<Rightarrow> getNewScores_scores osu rest db'))
          else getNewScores_scores osu rest db)"

text \<open>The four lists of one user, spread into one array.\<close>

definition userScoreLists :: "OsuClient \<Rightarrow> nat \<Rightarrow> error + osuScore list" where
  "userScoreLists osu uid =
     (case osu_getUserScores osu uid BEST of
        Inl e \<Rightarrow> Inl e
      | Inr userTops \<Rightarrow>
     (case osu_getUserScores osu uid FIRST of
        Inl e \<Rightarrow> Inl e
      | Inr userFirsts \<Rightarrow>
     (case osu_getUserScores osu uid RECENT of
        Inl e \<Rightarrow> Inl e
      | Inr userRecents \<Rightarrow>
     (case osu_getUserScores osu uid PINNED of
        Inl e \<Rightarrow> Inl e
      | Inr userPinned \<Rightarrow>
     (case (userTops, userFirsts, userRecents, userPinned) of
        (Some a, Some b, Some c, Some d) \<Rightarrow> Inr (a @ b @ c @ d)
      | _ \<Rightarrow> Inl (TypeError ''undefined is not iterable''))))))"

fun getNewScores_users :: "OsuClient \<Rightarrow> nat list \<Rightarrow> database \<Rightarrow> completion" where
  "getNewScores_users osu [] db = Normal db"
| "getNewScores_users osu (uid # rest) db =
     (case userScoreLists osu uid of
        Inl e \<Rightarrow> Thrown e
      | Inr userScores \<Rightarrow>
          (case getNewScores_scores osu userScores db of
             Normal db' \<Rightarrow> getNewScores_users osu rest db'
           | Returned db' \<Rightarrow> Returned db'
           | Thrown e \<Rightarrow> Thrown e))"

definition getNewScores :: "OsuClient \<Rightarrow> database \<Rightarrow> error + database" where
  "getNewScores osu db =
     (case getNewScores_users osu (getAutotrackUserIDs db) db of
        Normal db' \<Rightarrow> Inr db'
      | Returned db' \<Rightarrow> Inr db'
      | Thrown e \<Rightarrow> Inl e)"

subsection \<open>removeDuplicateScores\<close>

fun removeDuplicateScores_scores ::
  "OsuClient \<Rightarrow> string \<Rightarrow> MORScore list \<Rightarrow> database \<Rightarrow> error + database" where
  "removeDuplicateScores_scores osu key [] db = Inr db"
| "removeDuplicateScores_scores osu key (dbScore # scores) db =
     (case osu_getScore osu (scoreID dbScore) of
        Inl e \<Rightarrow> Inl e
      | Inr None \<Rightarrow>
          removeDuplicateScores_scores osu key scores (removeScore db (scoreID dbScore) key)
      | Inr (Some score) \<Rightarrow>
          if date dbScore \<noteq> Some (score_created_at score) then
            removeDuplicateScores_scores osu key scores (removeScore db (scoreID dbScore) key)
          else removeDuplicateScores_scores osu key scores db)"

fun removeDuplicateScores_keys :: "OsuClient \<Rightarrow> string list \<Rightarrow> database \<Rightarrow> error + database" where
  "removeDuplicateScores_keys osu [] db = Inr db"
| "removeDuplicateScores_keys osu (key # keys) db =
     (case removeDuplicateScores_scores osu key (getDuplicateScores db key) db of
        Inl e \<Rightarrow> Inl e
      | Inr db' \<Rightarrow> removeDuplicateScores_keys osu keys db')"

definition removeDuplicateScores :: "OsuClient \<Rightarrow> database \<Rightarrow> error + database" where
  "removeDuplicateScores osu db = removeDuplicateScores_keys osu MORMod_keys db"

subsection \<open>updateUsers\<close>

text \<open>
  \<^verbatim>\<open>modsToScores\<close>: for each key, in the order of the keys, the first three rows of its table
  after the sort by \<^verbatim>\<open>b.pp - a.pp\<close>.
\<close>

definition modsToScores :: "database \<Rightarrow> (string \<times> MORScore list) list" where
  "modsToScores db =
     map (\<lambda>key. (key, take 3 (sort_by (\<lambda>a b. toNumber (MORScore.pp b) - toNumber (MORScore.pp a))
                                       (getTableScores db key))))
         MORMod_keys"

text \<open>The loop over \<open>i\<close> through the scores of one key; \<open>scores\<close> is the rest from \<open>i\<close> on.\<close>

fun countRanks ::
  "nat \<Rightarrow> MORScore list \<Rightarrow> nat \<Rightarrow> nat \<times> nat \<times> nat \<Rightarrow> error + nat \<times> nat \<times> nat" where
  "countRanks uid [] i (top1, top2, top3) = Inr (top1, top2, top3)"
| "countRanks uid (score # scores) i (top1, top2, top3) =
     (if MORScore.userID score \<noteq> uid then countRanks uid scores (i + 1) (top1, top2, top3)
      else if i = 0 then countRanks uid scores (i + 1) (top1 + 1, top2, top3)
      else if i = 1 then countRanks uid scores (i + 1) (top1, top2 + 1, top3)
      else if i = 2 then countRanks uid scores (i + 1) (top1, top2, top3 + 1)
      else Inl (RangeError ''DatabaseUpdater::updateUsers - this should never happen!''))"

fun countTops ::
  "nat \<Rightarrow> (string \<times> MORScore list) list \<Rightarrow> nat \<times> nat \<times> nat \<Rightarrow> error + nat \<times> nat \<times> nat" where
  "countTops uid [] tops = Inr tops"
| "countTops uid ((key, scores) # rest) tops =
     (case countRanks uid scores 0 tops of
        Inl e \<Rightarrow> Inl e
      | Inr tops' \<Rightarrow> countTops uid rest tops')"

definition updatedUser :: "osuUser \<Rightarrow> MORUser \<Rightarrow> nat \<times> nat \<times> nat \<Rightarrow> MORUser" where
  "updatedUser u dbUser tops =
     (case tops of (n1, n2, n3) \<Rightarrow>
        \<lparr>MORUser.userID = user_id u,
         MORUser.username = user_username u,
         countryCode = user_country_code u,
         globalRank = user_global_rank u,
         MORUser.pp = user_pp u,
         MORUser.accuracy = user_hit_accuracy u,
         playtime = user_play_time u,
         playcount = user_play_count u,
         rankedScore = user_ranked_score u,
         maxCombo = user_maximum_combo u,
         replaysWatched = user_replays_watched_by_others u,
         pfpImageURL = user_avatar_url u,
         top1s = n1,
         top2s = n2,
         top3s = n3,
         autotrack = autotrack dbUser\<rparr>)"

text \<open>The body of the loop over the users of one response.\<close>

definition updateUsers_user ::
  "(string \<times> MORScore list) list \<Rightarrow> MORUser list \<Rightarrow> osuUser \<Rightarrow> database \<Rightarrow> error + database" where
  "updateUsers_user mts dbUsers u db =
     (case find (\<lambda>x. MORUser.userID x = user_id u) dbUsers of
        None \<Rightarrow> Inr db
      | Some dbUser \<Rightarrow>
          (case countTops (user_id u) mts (0, 0, 0) of
             Inl e \<Rightarrow> Inl e
           | Inr tops \<Rightarrow> updateUser db (updatedUser u dbUser tops)))"

fun updateUsers_chunk ::
  "(string \<times> MORScore list) list \<Rightarrow> MORUser list \<Rightarrow> osuUser list \<Rightarrow> database \<Rightarrow> error + database" where
  "updateUsers_chunk mts dbUsers [] db = Inr db"
| "updateUsers_chunk mts dbUsers (u # us) db =
     (case updateUsers_user mts dbUsers u db of
        Inl e \<Rightarrow> Inl e
      | Inr db' \<Rightarrow> updateUsers_chunk mts dbUsers us db')"

text \<open>\<^verbatim>\<open>OsuWrapper.getUsers\<close>: at most 50 ids in one request.\<close>

definition getUsers_osu :: "OsuClient \<Rightarrow> nat list \<Rightarrow> error + osuUser list option" where
  "getUsers_osu osu userIDs =
     (if length userIDs > 50 then
        Inl (TypeError ''OsuWrapper::getUsers - only up to 50 users can be retrieved at once!'')
      else osu_getUsers osu userIDs)"

function updateUsers_loop ::
  "OsuClient \<Rightarrow> (string \<times> MORScore list) list \<Rightarrow> MORUser list \<Rightarrow> nat \<Rightarrow> database \<Rightarrow>
   error + database" where
  "updateUsers_loop osu mts dbUsers i db =
     (if i < length dbUsers then
        (case getUsers_osu osu (take 50 (drop i (map MORUser.userID dbUsers))) of
           Inl e \<Rightarrow> Inl e
         | Inr None \<Rightarrow> Inl (TypeError ''Cannot read properties of undefined'')
         | Inr (Some osuUserChunk) \<Rightarrow>
             (case updateUsers_chunk mts dbUsers osuUserChunk db of
                Inl e \<Rightarrow> Inl e
              | Inr db' \<Rightarrow> updateUsers_loop osu mts dbUsers (i + 50) db'))
      else Inr db)"
  by pat_completeness auto
termination
  by (relation "measure (\<lambda>(osu, mts, dbUsers, i, db). length dbUsers - i)") auto

declare updateUsers_loop.simps [simp del]

definition updateUsers :: "OsuClient \<Rightarrow> database \<Rightarrow> error + database" where
  "updateUsers osu db = updateUsers_loop osu (modsToScores db) (getUsers db) 0 db"


section \<open>Notions used in the statements\<close>

text \<open>The rank of a modifier in \<open>modOrder\<close>; an unrecognised one has the rank 11.\<close>

definition modKey :: "string \<Rightarrow> int" where
  "modKey a = (if indexOf modOrder a = - 1 then 11 else indexOf modOrder a)"

text \<open>
  The canonical key as the specification derives it, token by token: the tokens other than NM
  in the priority order, NC read as DT, without NF, SO, SD and PF, concatenated; NM when
  nothing is left.
\<close>

definition canonicalize :: "string list \<Rightarrow> string" where
  "canonicalize M =
     (let sorted = sort_key modKey (filter (\<lambda>m. m \<noteq> ''NM'') M);
          substituted = map (\<lambda>m. if m = ''NC'' then ''DT'' else m) sorted;
          kept = filter (\<lambda>m. m \<notin> {''NF'', ''SO'', ''SD'', ''PF''}) substituted;
          s = concat kept
      in if s = [] then ''NM'' else s)"













text \<open>
  What the duplicate removal decides for a row: the row is stale when the osu!API has no score
  with its id, or has one with another date.
\<close>

definition stale :: "OsuClient \<Rightarrow> MORScore \<Rightarrow> bool" where
  "stale osu row =
     (case osu_getScore osu (scoreID row) of
        Inl e \<Rightarrow> False
      | Inr None \<Rightarrow> True
      | Inr (Some score) \<Rightarrow> date row \<noteq> Some (score_created_at score))"

text \<open>
  Two rows are equal in every field but \<open>scoreID\<close>; and a row has no NULL in the columns that
  the duplicate query compares.
\<close>

definition equalButScoreID :: "MORScore \<Rightarrow> MORScore \<Rightarrow> bool" where
  "equalButScoreID a b = (scoreID a \<noteq> scoreID b \<and> a\<lparr>scoreID := scoreID b\<rparr> = b)"

definition noNull :: "MORScore \<Rightarrow> bool" where
  "noNull a =
     (MORScore.username a \<noteq> None \<and> beatmap a \<noteq> None \<and> mods a \<noteq> None \<and>
      MORScore.pp a \<noteq> None \<and> MORScore.accuracy a \<noteq> None \<and> starRating a \<noteq> None \<and>
      date a \<noteq> None \<and> beatmapImageURL a \<noteq> None)"

text \<open>The rows that the duplicate query returns, and the table after the duplicate removal.\<close>

definition duplicates :: "MORScore list \<Rightarrow> MORScore list" where
  "duplicates rows = concat (map (\<lambda>t1. map (\<lambda>t2. t1) (filter (duplicateOf t1) rows)) rows)"

definition deduplicated :: "OsuClient \<Rightarrow> MORScore list \<Rightarrow> MORScore list" where
  "deduplicated osu rows =
     filter (\<lambda>row. scoreID row \<notin> set (map scoreID (filter (stale osu) (duplicates rows)))) rows"

text \<open>Sample rows and payloads for the examples.\<close>

definition sampleScore :: "nat \<Rightarrow> nat \<Rightarrow> real \<Rightarrow> string \<Rightarrow> MORScore" where
  "sampleScore sid uid p m =
     \<lparr>scoreID = sid, userID = uid, beatmapID = 100, username = Some ''player'',
      beatmap = Some ''artist - title [version]'', mods = Some m, pp = Some p,
      accuracy = Some 99, starRating = Some 6, date = Some ''2024-05-16T00:00:00Z'',
      beatmapImageURL = Some ''cover''\<rparr>"

definition sampleOsuScore :: "nat \<Rightarrow> nat \<Rightarrow> string list \<Rightarrow> osuScore" where
  "sampleOsuScore sid uid ms =
     \<lparr>score_id = sid, score_user_id = uid, score_user_username = ''player'',
      score_beatmap_id = 100, score_beatmap_version = ''version'',
      score_beatmap_difficulty_rating = 6, score_beatmapset_artist = ''artist'',
      score_beatmapset_title = ''title'', score_beatmapset_covers_list2x = ''cover'',
      score_mods = ms, score_pp = Some 300, score_accuracy = 99,
      score_created_at = ''2024-05-16T00:00:00Z''\<rparr>"

definition sampleUser :: "nat \<Rightarrow> bool \<Rightarrow> MORUser" where
  "sampleUser uid tracked =
     \<lparr>MORUser.userID = uid, MORUser.username = ''player'', countryCode = ''CA'',
      globalRank = Some 1,
      MORUser.pp = 10000, MORUser.accuracy = 99, playtime = 1, playcount = 1, rankedScore = 1,
      maxCombo = 1, replaysWatched = 1, pfpImageURL = ''avatar'', top1s = 0, top2s = 0,
      top3s = 0, autotrack = tracked\<rparr>"


text \<open>An osu!API that answers \<open>getScore\<close> with \<open>f\<close> and knows no user and no score list.\<close>

definition sampleClient :: "(nat \<Rightarrow> error + osuScore option) \<Rightarrow> OsuClient" where
  "sampleClient f =
     \<lparr>osu_getScore = f,
      osu_getUserScores = (\<lambda>uid t. Inr (Some [])),
      osu_getUsers = (\<lambda>uids. Inr (Some [])),
      osu_getBeatmapAttributes = (\<lambda>bid ms. Inr (Some 7))\<rparr>"

text \<open>An osu!API whose list of best scores of a user is \<open>best uid\<close>; the other lists are empty.\<close>

definition sampleListClient :: "(nat \<Rightarrow> osuScore list) \<Rightarrow> OsuClient" where
  "sampleListClient best =
     \<lparr>osu_getScore = (\<lambda>sid. Inr None),
      osu_getUserScores = (\<lambda>uid t. if t = BEST then Inr (Some (best uid)) else Inr (Some [])),
      osu_getUsers = (\<lambda>uids. Inr (Some [])),
      osu_getBeatmapAttributes = (\<lambda>bid ms. Inr (Some 7))\<rparr>"




text \<open>
  The recount as the specification describes it. The first three of a partition: its rows
  sorted by pp, descending (rows of equal pp in the order of the table, a NULL pp counting as
  0), cut after the third. The counter of a user for the rank \<open>i\<close> (0 for top1s, 1 for top2s,
  2 for top3s): the number of partitions in whose first three a score of the user is at
  index \<open>i\<close>.
\<close>

definition top3 :: "MORScore list \<Rightarrow> MORScore list" where
  "top3 rows = take 3 (sort_key (\<lambda>s. - toNumber (MORScore.pp s)) rows)"







section \<open>Canonical modifier keys\<close>

lemmas convertOsuMods_eval =
  convertOsuMods_def sortOsuMods_def sort_by_def modCompare_def modOrder_def
  replaceAll_comma_def stringToMORMod_def MORMod_def modStringToArray_def lineTerminator_def

lemma indexOf_range:
  "indexOf xs a = - 1 \<or> (0 \<le> indexOf xs a \<and> indexOf xs a < int (length xs))"
  by (induction xs) (auto simp: Let_def)

lemma indexOf_notin: "indexOf xs a = - 1 \<longleftrightarrow> a \<notin> set xs"
proof (induction xs)
  case Nil
  show ?case by simp
next
  case (Cons x xs)
  have "indexOf xs a = - 1 \<or> 0 \<le> indexOf xs a"
    using indexOf_range [of xs a] by auto
  with Cons show ?case by (auto simp: Let_def)
qed

lemma indexOf_inj: "indexOf xs a = indexOf xs b \<Longrightarrow> indexOf xs a \<noteq> - 1 \<Longrightarrow> a = b"
proof (induction xs)
  case Nil
  then show ?case by simp
next
  case (Cons x xs)
  have ra: "indexOf xs a = - 1 \<or> 0 \<le> indexOf xs a"
    using indexOf_range [of xs a] by auto
  have rb: "indexOf xs b = - 1 \<or> 0 \<le> indexOf xs b"
    using indexOf_range [of xs b] by auto
  from Cons ra rb show ?case by (auto simp: Let_def split: if_splits)
qed

lemma modCompare_le: "modCompare a b \<le> 0 \<longleftrightarrow> modKey a \<le> modKey b"
proof -
  have ra: "indexOf modOrder a = - 1 \<or> (0 \<le> indexOf modOrder a \<and> indexOf modOrder a < 11)"
    using indexOf_range [of modOrder a] by (simp add: modOrder_def)
  have rb: "indexOf modOrder b = - 1 \<or> (0 \<le> indexOf modOrder b \<and> indexOf modOrder b < 11)"
    using indexOf_range [of modOrder b] by (simp add: modOrder_def)
  from ra rb show ?thesis by (auto simp: modCompare_def modKey_def Let_def)
qed

text \<open>The sort of the code is the library's stable sort when the comparator compares keys.\<close>

lemma insert_by_insort_key:
  assumes "\<And>a b. cmp a b \<le> 0 \<longleftrightarrow> key a \<le> key b"
  shows "insert_by cmp x ys = insort_key key x ys"
  by (induction ys) (simp_all add: assms)

lemma sort_by_sort_key:
  assumes "\<And>a b. cmp a b \<le> 0 \<longleftrightarrow> key a \<le> key b"
  shows "sort_by cmp xs = sort_key key xs"
  unfolding sort_by_def sort_key_def using insert_by_insort_key [of cmp key, OF assms]
  by (induction xs) simp_all

lemma sortOsuMods_sort_key:
  "sortOsuMods ms = sort_key modKey (filter (\<lambda>m. m \<noteq> ''NM'') ms)"
  unfolding sortOsuMods_def by (rule sort_by_sort_key) (rule modCompare_le)

text \<open>
  A stable sort gives the same list for two inputs with the same elements in which the
  elements of each key come in the same order.
\<close>

lemma sort_key_perm_stable:
  assumes "mset ys = mset xs"
    and "\<And>c. filter (\<lambda>x. f x = c) ys = filter (\<lambda>x. f x = c) xs"
  shows "sort_key f ys = sort_key f xs"
proof (rule properties_for_sort_key [symmetric])
  show "mset (sort_key f ys) = mset xs"
    using assms(1) by simp
  show "sorted (map f (sort_key f ys))"
    by simp
  fix k
  have "filter (\<lambda>x. f k = f x) (sort_key f ys) = filter (\<lambda>x. f x = f k) (sort_key f ys)"
    by (rule filter_cong) auto
  also have "\<dots> = filter (\<lambda>x. f x = f k) ys"
    by (rule sort_key_stable)
  also have "\<dots> = filter (\<lambda>x. f x = f k) xs"
    by (rule assms(2))
  also have "\<dots> = filter (\<lambda>x. f k = f x) xs"
    by (rule filter_cong) auto
  finally show "filter (\<lambda>x. f k = f x) (sort_key f ys) = filter (\<lambda>x. f k = f x) xs" .
qed

lemma filter_class_single:
  assumes "mset ys = mset xs"
    and "\<And>x y. x \<in> set xs \<Longrightarrow> y \<in> set xs \<Longrightarrow> P x \<Longrightarrow> P y \<Longrightarrow> x = y"
  shows "filter P ys = filter P xs"
proof (cases "\<exists>v \<in> set xs. P v")
  case True
  then obtain v where v: "v \<in> set xs" "P v"
    by blast
  have sets: "set ys = set xs"
    using assms(1) by (rule mset_eq_setD)
  have px: "filter P xs = filter ((=) v) xs"
    by (rule filter_cong) (use assms(2) v in auto)
  have py: "filter P ys = filter ((=) v) ys"
    by (rule filter_cong) (use assms(2) v sets in auto)
  have "filter ((=) v) ys = replicate (count (mset ys) v) v"
    by (rule replicate_count_mset_eq_filter_eq [symmetric])
  also have "\<dots> = replicate (count (mset xs) v) v"
    by (simp add: assms(1))
  also have "\<dots> = filter ((=) v) xs"
    by (rule replicate_count_mset_eq_filter_eq)
  finally show ?thesis
    by (simp add: px py)
next
  case False
  moreover have "set ys = set xs"
    using assms(1) by (rule mset_eq_setD)
  ultimately show ?thesis
    by (simp add: filter_empty_conv)
qed

lemma modKey_unrecognised: "modKey m = 11 \<longleftrightarrow> m \<notin> set modOrder"
proof -
  have "indexOf modOrder m = - 1 \<or> (0 \<le> indexOf modOrder m \<and> indexOf modOrder m < 11)"
    using indexOf_range [of modOrder m] by (simp add: modOrder_def)
  then show ?thesis
    unfolding modKey_def using indexOf_notin [of modOrder m] by auto
qed

lemma modKey_inj: "modKey a = modKey b \<Longrightarrow> modKey a \<noteq> 11 \<Longrightarrow> a = b"
  using indexOf_inj [of modOrder a b] by (auto simp: modKey_def split: if_splits)

text \<open>
  C3, as the claim states it, fails: two tokens that are not in the priority list keep the
  order of the input, and the replacements work on the concatenated string, across the
  borders of the tokens. The lists \<open>[HN, FD]\<close> and \<open>[FD, HN]\<close> are permutations of each other;
  the first gives the key HD (the string HNFD loses its NF), the second throws a TypeError.
\<close>

theorem convertOsuMods_order_counterexample:
  "mset [''FD'', ''HN''] = mset [''HN'', ''FD''] \<and>
   convertOsuMods [''HN'', ''FD''] = Inr ''HD'' \<and>
   convertOsuMods [''FD'', ''HN''] =
     Inl (TypeError ''stringToMORMod - FDHN has no associated MORMod!'')"
  by (simp add: convertOsuMods_eval)

text \<open>
  C3, amended: for every list \<open>M\<close> of modifier tokens and every permutation \<open>M'\<close> of \<open>M\<close> in
  which the tokens that are neither one of the eleven codes of the priority list nor NM come
  in the same order as in \<open>M\<close> (in particular whenever every token is one of the eleven codes
  or NM), \<open>convertOsuMods M'\<close> is \<open>convertOsuMods M\<close>.
\<close>

theorem convertOsuMods_permutation:
  assumes "mset M' = mset M"
    and "filter (\<lambda>m. m \<notin> set modOrder \<and> m \<noteq> ''NM'') M' =
         filter (\<lambda>m. m \<notin> set modOrder \<and> m \<noteq> ''NM'') M"
  shows "convertOsuMods M' = convertOsuMods M"
proof -
  let ?xs = "filter (\<lambda>m. m \<noteq> ''NM'') M" and ?ys = "filter (\<lambda>m. m \<noteq> ''NM'') M'"
  have m: "mset ?ys = mset ?xs"
    using assms(1) by simp
  have cls: "filter (\<lambda>x. modKey x = c) ?ys = filter (\<lambda>x. modKey x = c) ?xs" for c
  proof (cases "c = 11")
    case True
    have "filter (\<lambda>x. modKey x = c) (filter (\<lambda>m. m \<noteq> ''NM'') L) =
          filter (\<lambda>m. m \<notin> set modOrder \<and> m \<noteq> ''NM'') L" for L
      by (simp add: True modKey_unrecognised conj_commute)
    then show ?thesis
      using assms(2) by simp
  next
    case False
    show ?thesis
      by (rule filter_class_single [OF m]) (use False modKey_inj in auto)
  qed
  have "sortOsuMods M' = sortOsuMods M"
    unfolding sortOsuMods_sort_key by (rule sort_key_perm_stable [OF m cls])
  then show ?thesis
    by (simp add: convertOsuMods_def)
qed

theorem convertOsuMods_permutation_witness:
  "mset [''DT'', ''RX'', ''HD'', ''NM''] = mset [''NM'', ''HD'', ''DT'', ''RX''] \<and>
   filter (\<lambda>m. m \<notin> set modOrder \<and> m \<noteq> ''NM'') [''DT'', ''RX'', ''HD'', ''NM''] = [''RX''] \<and>
   filter (\<lambda>m. m \<notin> set modOrder \<and> m \<noteq> ''NM'') [''NM'', ''HD'', ''DT'', ''RX''] = [''RX''] \<and>
   convertOsuMods [''DT'', ''RX'', ''HD'', ''NM''] = convertOsuMods [''NM'', ''HD'', ''DT'', ''RX'']"
  using convertOsuMods_permutation
    [of "[''DT'', ''RX'', ''HD'', ''NM'']" "[''NM'', ''HD'', ''DT'', ''RX'']"]
  by (simp add: modOrder_def)

text \<open>
  The replacements of \<open>convertOsuMods\<close> work on the concatenated string. For tokens of two
  characters none of which ends with the first character of the pattern, a replacement cannot
  match across the border of two tokens, so it acts on the tokens.
\<close>

lemma join_concat:
  "\<forall>t \<in> set L. CHR '','' \<notin> set t \<Longrightarrow> replaceAll_comma (join L) = concat L"
proof (induction L rule: join.induct)
  case 1
  show ?case by (simp add: replaceAll_comma_def)
next
  case (2 x)
  then show ?case by (auto simp: replaceAll_comma_def filter_id_conv)
next
  case (3 x y ys)
  then show ?case by (auto simp: replaceAll_comma_def filter_id_conv)
qed

lemma count_list_map_le:
  "distinct L \<Longrightarrow> (\<And>y. y \<in> set L \<Longrightarrow> f y = x \<Longrightarrow> y = x) \<Longrightarrow> count_list (map f L) x \<le> 1"
proof (induction L)
  case Nil
  show ?case by simp
next
  case (Cons a L)
  show ?case
  proof (cases "f a = x")
    case True
    then have ax: "a = x" using Cons.prems(2) by simp
    have "x \<notin> f ` set L"
    proof
      assume "x \<in> f ` set L"
      then obtain y where y: "y \<in> set L" "f y = x" by auto
      then have "y = x" using Cons.prems(2) by simp
      with y ax Cons.prems(1) show False by simp
    qed
    then have "count_list (map f L) x = 0"
      by (simp add: count_list_0_iff)
    with True show ?thesis by simp
  next
    case False
    have "count_list (map f L) x \<le> 1"
      by (rule Cons.IH) (use Cons.prems in auto)
    with False show ?thesis by simp
  qed
qed

lemma replace_tokens:
  "\<forall>t \<in> set L. t = [] \<or> (length t = 2 \<and> t ! 1 \<noteq> c1) \<Longrightarrow> count_list L [c1, c2] \<le> 1 \<Longrightarrow>
   replace (concat L) [c1, c2] rep = concat (map (\<lambda>t. if t = [c1, c2] then rep else t) L)"
proof (induction L)
  case Nil
  show ?case by simp
next
  case (Cons t L)
  have tok: "\<forall>t \<in> set L. t = [] \<or> (length t = 2 \<and> t ! 1 \<noteq> c1)"
    using Cons.prems(1) by simp
  show ?case
  proof (cases "t = []")
    case True
    then show ?thesis using Cons tok by simp
  next
    case False
    then obtain a b where t: "t = [a, b]" and b: "b \<noteq> c1"
      using Cons.prems(1) by (cases t; cases "tl t") auto
    show ?thesis
    proof (cases "t = [c1, c2]")
      case True
      then have "count_list L [c1, c2] = 0"
        using Cons.prems(2) by simp
      then have "[c1, c2] \<notin> set L"
        by (simp add: count_list_0_iff)
      then have "map (\<lambda>t. if t = [c1, c2] then rep else t) L = L"
        by (intro map_idI) auto
      with True show ?thesis by simp
    next
      case ne: False
      have cnt: "count_list L [c1, c2] \<le> 1"
        using Cons.prems(2) ne by simp
      have ih: "replace (concat L) [c1, c2] rep =
                concat (map (\<lambda>t. if t = [c1, c2] then rep else t) L)"
        by (rule Cons.IH [OF tok cnt])
      have step: "replace (b # cs) [c1, c2] rep = b # replace cs [c1, c2] rep" for cs
        using b by (cases cs) auto
      have "replace (concat (t # L)) [c1, c2] rep = a # replace (b # concat L) [c1, c2] rep"
        using ne t by auto
      also have "\<dots> = a # b # replace (concat L) [c1, c2] rep"
        by (simp only: step)
      also have "\<dots> = a # b # concat (map (\<lambda>t. if t = [c1, c2] then rep else t) L)"
        by (simp only: ih)
      also have "\<dots> = concat (map (\<lambda>t. if t = [c1, c2] then rep else t) (t # L))"
        using ne t by auto
      finally show ?thesis .
    qed
  qed
qed

lemma modOrder_token:
  "t \<in> set modOrder \<Longrightarrow>
   length t = 2 \<and> t ! 1 \<noteq> CHR ''N'' \<and> t ! 1 \<noteq> CHR ''S'' \<and> t ! 1 \<noteq> CHR ''P'' \<and>
   CHR '','' \<notin> set t"
  by (auto simp: modOrder_def)

lemma concat_canonical:
  "concat (map (\<lambda>t. if t = ''PF'' then [] else t)
     (map (\<lambda>t. if t = ''SD'' then [] else t)
       (map (\<lambda>t. if t = ''SO'' then [] else t)
         (map (\<lambda>t. if t = ''NF'' then [] else t)
           (map (\<lambda>t. if t = ''NC'' then ''DT'' else t) L))))) =
   concat (filter (\<lambda>m. m \<notin> {''NF'', ''SO'', ''SD'', ''PF''})
     (map (\<lambda>m. if m = ''NC'' then ''DT'' else m) L))"
  by (induction L) auto

lemma convertOsuMods_canonicalize:
  assumes rec: "set M \<subseteq> set modOrder \<union> {''NM''}" and dist: "distinct M"
  shows "convertOsuMods M = stringToMORMod (canonicalize M)"
proof -
  define L where "L = sortOsuMods M"
  have L: "L = sort_key modKey (filter (\<lambda>m. m \<noteq> ''NM'') M)"
    unfolding L_def by (rule sortOsuMods_sort_key)
  have setL: "set L \<subseteq> set modOrder"
    using rec unfolding L by auto
  have dL: "distinct L"
    using dist unfolding L by simp
  let ?f1 = "\<lambda>t. if t = ''NC'' then ''DT'' else t"
  let ?f2 = "\<lambda>t. if t = ''NF'' then [] else t"
  let ?f3 = "\<lambda>t. if t = ''SO'' then [] else t"
  let ?f4 = "\<lambda>t. if t = ''SD'' then [] else t"
  let ?f5 = "\<lambda>t. if t = ''PF'' then [] else t"
  let ?L1 = "map ?f1 L"
  let ?L2 = "map ?f2 ?L1"
  let ?L3 = "map ?f3 ?L2"
  let ?L4 = "map ?f4 ?L3"
  let ?L5 = "map ?f5 ?L4"
  have tokL: "t \<in> set L \<Longrightarrow> length t = 2 \<and> t ! 1 \<noteq> CHR ''N'' \<and> t ! 1 \<noteq> CHR ''S'' \<and>
                t ! 1 \<noteq> CHR ''P'' \<and> CHR '','' \<notin> set t" for t
    using setL modOrder_token by blast
  have s0: "replaceAll_comma (join L) = concat L"
    by (rule join_concat) (use tokL in blast)
  have s1: "replace (concat L) ''NC'' ''DT'' = concat ?L1"
  proof (rule replace_tokens)
    show "\<forall>t \<in> set L. t = [] \<or> (length t = 2 \<and> t ! 1 \<noteq> CHR ''N'')"
      using tokL by blast
    show "count_list L ''NC'' \<le> 1"
      using count_list_map_le [of L "\<lambda>t. t" "''NC''"] dL by simp
  qed
  have s2: "replace (concat ?L1) ''NF'' [] = concat ?L2"
  proof (rule replace_tokens)
    show "\<forall>t \<in> set ?L1. t = [] \<or> (length t = 2 \<and> t ! 1 \<noteq> CHR ''N'')"
      using tokL by auto
    show "count_list ?L1 ''NF'' \<le> 1"
      by (rule count_list_map_le [OF dL]) (simp split: if_splits)
  qed
  have s3: "replace (concat ?L2) ''SO'' [] = concat ?L3"
  proof (rule replace_tokens)
    show "\<forall>t \<in> set ?L2. t = [] \<or> (length t = 2 \<and> t ! 1 \<noteq> CHR ''S'')"
      using tokL by auto
    have "count_list (map (?f2 \<circ> ?f1) L) ''SO'' \<le> 1"
      by (rule count_list_map_le [OF dL]) (simp split: if_splits)
    then show "count_list ?L2 ''SO'' \<le> 1"
      by (simp only: map_map)
  qed
  have s4: "replace (concat ?L3) ''SD'' [] = concat ?L4"
  proof (rule replace_tokens)
    show "\<forall>t \<in> set ?L3. t = [] \<or> (length t = 2 \<and> t ! 1 \<noteq> CHR ''S'')"
      using tokL by auto
    have "count_list (map (?f3 \<circ> ?f2 \<circ> ?f1) L) ''SD'' \<le> 1"
      by (rule count_list_map_le [OF dL]) (simp split: if_splits)
    then show "count_list ?L3 ''SD'' \<le> 1"
      by (simp only: map_map comp_assoc)
  qed
  have s5: "replace (concat ?L4) ''PF'' [] = concat ?L5"
  proof (rule replace_tokens)
    show "\<forall>t \<in> set ?L4. t = [] \<or> (length t = 2 \<and> t ! 1 \<noteq> CHR ''P'')"
      using tokL by auto
    have "count_list (map (?f4 \<circ> ?f3 \<circ> ?f2 \<circ> ?f1) L) ''PF'' \<le> 1"
      by (rule count_list_map_le [OF dL]) (simp split: if_splits)
    then show "count_list ?L4 ''PF'' \<le> 1"
      by (simp only: map_map comp_assoc)
  qed
  have "convertOsuMods M = stringToMORMod (if concat ?L5 = [] then ''NM'' else concat ?L5)"
    unfolding convertOsuMods_def Let_def L_def [symmetric] s0 s1 s2 s3 s4 s5 ..
  also have "concat ?L5 = concat (filter (\<lambda>m. m \<notin> {''NF'', ''SO'', ''SD'', ''PF''}) (map ?f1 L))"
    by (rule concat_canonical)
  finally show ?thesis
    unfolding canonicalize_def Let_def L [symmetric] .
qed

text \<open>
  C4: \<open>convertOsuMods\<close> of the empty list is NM; \<open>[NC]\<close> gives DT, which is what \<open>[DT]\<close>
  gives; \<open>[NF, SO]\<close> and \<open>[SD, PF]\<close> give NM. In general, for every list of distinct tokens
  that are among the eleven codes of the priority list or NM, \<open>convertOsuMods\<close> gives the key
  that the specification derives: the tokens in the priority order with NC substituted by DT
  and NF, SO, SD, PF deleted, NM when nothing is left (and the TypeError of
  \<open>stringToMORMod\<close> when that string is no key).
\<close>

theorem convertOsuMods_examples:
  "convertOsuMods [] = Inr ''NM'' \<and>
   convertOsuMods [''NC''] = Inr ''DT'' \<and> convertOsuMods [''DT''] = Inr ''DT'' \<and>
   convertOsuMods [''NC''] = convertOsuMods [''DT''] \<and>
   convertOsuMods [''NF'', ''SO''] = Inr ''NM'' \<and>
   convertOsuMods [''SD'', ''PF''] = Inr ''NM'' \<and>
   convertOsuMods [''PF'', ''HD'', ''SD'', ''NC'', ''SO'', ''NF''] = Inr ''HDDT'' \<and>
   (set M \<subseteq> set modOrder \<union> {''NM''} \<and> distinct M \<longrightarrow>
      convertOsuMods M = stringToMORMod (canonicalize M))"
proof -
  have "convertOsuMods [] = Inr ''NM''"
    by (simp add: convertOsuMods_eval)
  moreover have "convertOsuMods [''NC''] = Inr ''DT''"
    by (simp add: convertOsuMods_eval)
  moreover have "convertOsuMods [''DT''] = Inr ''DT''"
    by (simp add: convertOsuMods_eval)
  moreover have "convertOsuMods [''NF'', ''SO''] = Inr ''NM''"
    by (simp add: convertOsuMods_eval)
  moreover have "convertOsuMods [''SD'', ''PF''] = Inr ''NM''"
    by (simp add: convertOsuMods_eval)
  moreover have "convertOsuMods [''PF'', ''HD'', ''SD'', ''NC'', ''SO'', ''NF''] = Inr ''HDDT''"
    by (simp add: convertOsuMods_eval)
  ultimately show ?thesis
    using convertOsuMods_canonicalize [of M] by simp
qed

theorem convertOsuMods_examples_witness:
  "set [''SO'', ''FL'', ''NC'', ''NM'', ''EZ''] \<subseteq> set modOrder \<union> {''NM''} \<and>
   distinct [''SO'', ''FL'', ''NC'', ''NM'', ''EZ''] \<and>
   canonicalize [''SO'', ''FL'', ''NC'', ''NM'', ''EZ''] = ''EZDTFL'' \<and>
   convertOsuMods [''SO'', ''FL'', ''NC'', ''NM'', ''EZ''] = Inr ''EZDTFL''"
proof -
  have a: "set [''SO'', ''FL'', ''NC'', ''NM'', ''EZ''] \<subseteq> set modOrder \<union> {''NM''}"
    by (simp add: modOrder_def)
  have b: "distinct [''SO'', ''FL'', ''NC'', ''NM'', ''EZ'']"
    by simp
  have c: "canonicalize [''SO'', ''FL'', ''NC'', ''NM'', ''EZ''] = ''EZDTFL''"
    by (auto simp: canonicalize_def modKey_def modOrder_def intro: exI [of _ "''DT''"])
  have d: "stringToMORMod ''EZDTFL'' = Inr ''EZDTFL''"
    by (simp add: stringToMORMod_def MORMod_def)
  from convertOsuMods_examples [of "[''SO'', ''FL'', ''NC'', ''NM'', ''EZ'']"] a b
  have "convertOsuMods [''SO'', ''FL'', ''NC'', ''NM'', ''EZ''] =
        stringToMORMod (canonicalize [''SO'', ''FL'', ''NC'', ''NM'', ''EZ''])"
    by blast
  with a b c d show ?thesis
    by simp
qed

text \<open>
  C10, as the claim states it, fails in its count: \<^verbatim>\<open>MORMod\<close> has 36 members with 36
  different values, not 35.
\<close>

theorem MORMod_values_counterexample:
  "length (map snd MORMod) = 36 \<and> distinct (map snd MORMod)"
  by (simp add: MORMod_def)

text \<open>
  C10, amended: for each of the 36 values \<open>k\<close> of \<^verbatim>\<open>MORMod\<close>, cutting \<open>k\<close> into tokens of two
  characters with \<open>modStringToArray\<close> and canonicalising the tokens with \<open>convertOsuMods\<close>
  returns \<open>k\<close>.
\<close>

theorem convertOsuMods_fixed_point:
  "length (map snd MORMod) = 36 \<and>
   (\<forall>k \<in> set (map snd MORMod). convertOsuMods (modStringToArray k) = Inr k)"
  by (simp add: convertOsuMods_eval)

theorem convertOsuMods_fixed_point_witness:
  "''HDHRDTFL'' \<in> set (map snd MORMod) \<and>
   convertOsuMods (modStringToArray ''HDHRDTFL'') = Inr ''HDHRDTFL''"
proof -
  have m: "''HDHRDTFL'' \<in> set (map snd MORMod)"
    by (simp add: MORMod_def)
  from convertOsuMods_fixed_point
  have "\<forall>k \<in> set (map snd MORMod). convertOsuMods (modStringToArray k) = Inr k"
    by (rule conjunct2)
  from this m have "convertOsuMods (modStringToArray ''HDHRDTFL'') = Inr ''HDHRDTFL''"
    by (rule bspec)
  with m show ?thesis
    by simp
qed


section \<open>The request loop\<close>

































section \<open>The storage gateway\<close>

text \<open>The primary key: the operations keep the \<open>scoreID\<close>s of a table distinct.\<close>

lemma insertScore_distinct:
  assumes "insertScore db score = Inr db'" and "distinct (map scoreID (tables db key))"
  shows "distinct (map scoreID (tables db' key))"
  using assms
  by (auto simp: insertScore_def sqlite_insert_score_def split: sum.splits if_splits)

lemma removeScore_distinct:
  "distinct (map scoreID (tables db key)) \<Longrightarrow>
   distinct (map scoreID (tables (removeScore db sid tableName) key))"
  by (auto simp: removeScore_def distinct_map_filter)

lemma filter_scoreID_absent:
  "sid \<notin> set (map scoreID rows) \<Longrightarrow> filter (\<lambda>row. scoreID row = sid) rows = []"
  by (induction rows) auto

lemma includes_unique_message:
  "includes_string (''SQLITE_CONSTRAINT: UNIQUE constraint failed: '' @ tableName @ ''.scoreID'') ''UNIQUE''"
  by simp

text \<open>
  C8: for a score whose modifier string has a partition key and that passes the CHECK
  constraints of the table (pp, accuracy and star rating are NULL or not negative): when its
  \<open>scoreID\<close> is already in that partition, \<open>insertScore\<close> succeeds and leaves the database as
  it is (the UNIQUE error of the driver is swallowed); and when it is not, inserting the score
  twice succeeds both times, the second insert changes nothing, and reading the partition
  back gives one row with this \<open>scoreID\<close>, the inserted score itself.
\<close>

theorem insertScore_idempotent:
  assumes "mods score = Some m" and "convertOsuMods (modStringToArray m) = Inr key"
    and "sql_check_ge_0 (MORScore.pp score)" and "sql_check_ge_0 (MORScore.accuracy score)"
    and "sql_check_ge_0 (starRating score)"
  shows "(scoreID score \<in> set (map scoreID (tables db key)) \<longrightarrow> insertScore db score = Inr db) \<and>
         (scoreID score \<notin> set (map scoreID (tables db key)) \<longrightarrow>
            (\<exists>db1. insertScore db score = Inr db1 \<and> insertScore db1 score = Inr db1 \<and>
                   filter (\<lambda>row. scoreID row = scoreID score) (getTableScores db1 key) = [score]))"
proof (intro conjI impI)
  assume "scoreID score \<in> set (map scoreID (tables db key))"
  then show "insertScore db score = Inr db"
    using assms by (simp add: insertScore_def sqlite_insert_score_def)
next
  assume new: "scoreID score \<notin> set (map scoreID (tables db key))"
  let ?db1 = "db\<lparr>tables := (tables db)(key := tables db key @ [score])\<rparr>"
  have 1: "insertScore db score = Inr ?db1"
    using assms new by (simp add: insertScore_def sqlite_insert_score_def)
  have 2: "insertScore ?db1 score = Inr ?db1"
    using assms by (simp add: insertScore_def sqlite_insert_score_def)
  have 3: "filter (\<lambda>row. scoreID row = scoreID score) (getTableScores ?db1 key) = [score]"
    using filter_scoreID_absent [OF new] by (simp add: getTableScores_def)
  from 1 2 3 show "\<exists>db1. insertScore db score = Inr db1 \<and> insertScore db1 score = Inr db1 \<and>
                   filter (\<lambda>row. scoreID row = scoreID score) (getTableScores db1 key) = [score]"
    by blast
qed

theorem insertScore_idempotent_witness:
  "convertOsuMods (modStringToArray ''HDNC'') = Inr ''HDDT'' \<and>
   (\<exists>db1. insertScore emptyDatabase
            \<lparr>scoreID = 7, userID = 1, beatmapID = 2, username = Some ''a'', beatmap = Some ''b'',
             mods = Some ''HDNC'', pp = Some 300, accuracy = Some 99, starRating = Some 6,
             date = Some ''2024-05-16'', beatmapImageURL = Some ''c''\<rparr> = Inr db1 \<and>
          insertScore db1
            \<lparr>scoreID = 7, userID = 1, beatmapID = 2, username = Some ''a'', beatmap = Some ''b'',
             mods = Some ''HDNC'', pp = Some 300, accuracy = Some 99, starRating = Some 6,
             date = Some ''2024-05-16'', beatmapImageURL = Some ''c''\<rparr> = Inr db1 \<and>
          filter (\<lambda>row. scoreID row = 7) (getTableScores db1 ''HDDT'') =
            [\<lparr>scoreID = 7, userID = 1, beatmapID = 2, username = Some ''a'', beatmap = Some ''b'',
              mods = Some ''HDNC'', pp = Some 300, accuracy = Some 99, starRating = Some 6,
              date = Some ''2024-05-16'', beatmapImageURL = Some ''c''\<rparr>])"
proof -
  let ?s = "\<lparr>scoreID = 7, userID = 1, beatmapID = 2, username = Some ''a'', beatmap = Some ''b'',
             mods = Some ''HDNC'', pp = Some 300, accuracy = Some 99, starRating = Some 6,
             date = Some ''2024-05-16'', beatmapImageURL = Some ''c''\<rparr>"
  have k: "convertOsuMods (modStringToArray ''HDNC'') = Inr ''HDDT''"
    by (simp add: convertOsuMods_eval)
  have m: "mods ?s = Some ''HDNC''"
    by simp
  have new: "scoreID ?s \<notin> set (map scoreID (tables emptyDatabase ''HDDT''))"
    by (simp add: emptyDatabase_def)
  from insertScore_idempotent [OF m k, of emptyDatabase] new k show ?thesis
    by simp
qed

lemma removeUserScores_fold:
  "tables (fold (\<lambda>key d. d\<lparr>tables := (tables d)(key := filter P (tables d key))\<rparr>) keys db) k =
     (if k \<in> set keys then filter P (tables db k) else tables db k)"
  by (induction keys arbitrary: db) auto

lemma removeUserScores_fold_users:
  "USERS (fold (\<lambda>key d. d\<lparr>tables := (tables d)(key := filter P (tables d key))\<rparr>) keys db) = USERS db"
  by (induction keys arbitrary: db) auto

text \<open>
  C9, as the claim states it, fails in its count: there are 36 tables of scores, one for each
  of the 36 different keys of \<^verbatim>\<open>MORMod\<close>, not 35.
\<close>

theorem removeUser_keys_counterexample:
  "length MORMod_keys = 36 \<and> distinct MORMod_keys"
  by (simp add: MORMod_keys_def MORMod_def)

text \<open>
  C9, amended: \<open>removeUser db uid\<close> deletes only the rows with that \<open>userID\<close> from USERS: none
  of the 36 tables of scores changes and all the other rows of USERS stay. The scores of a
  removed user are deleted only by \<open>removeUserScores\<close> (which empties the 36 tables of that
  user's rows and leaves USERS alone), and the command of the bot does not call it when its
  flag \<^verbatim>\<open>remove_scores\<close> is not set.
\<close>

theorem removeUser_frame:
  "length MORMod_keys = 36 \<and>
   tables (removeUser db uid) = tables db \<and>
   USERS (removeUser db uid) = filter (\<lambda>row. MORUser.userID row \<noteq> uid) (USERS db) \<and>
   tables (removeUserCmd toLowerCase db name False) = tables db \<and>
   tables (removeUserScores db uid) key =
     (if key \<in> set MORMod_keys then filter (\<lambda>row. MORScore.userID row \<noteq> uid) (tables db key)
      else tables db key) \<and>
   USERS (removeUserScores db uid) = USERS db"
proof -
  have "length MORMod_keys = 36"
    by (simp add: MORMod_keys_def MORMod_def)
  moreover have "tables (removeUserCmd toLowerCase db name False) = tables db"
    by (simp add: removeUserCmd_def removeUser_def split: option.splits)
  ultimately show ?thesis
    by (simp add: removeUser_def removeUserScores_def removeUserScores_fold
        removeUserScores_fold_users)
qed

section \<open>Duplicate removal\<close>

lemma removeDuplicateScores_scores_result:
  assumes "\<And>sid. \<exists>r. osu_getScore osu sid = Inr r"
  shows "removeDuplicateScores_scores osu key scores db =
     Inr (db\<lparr>tables := (tables db)(key :=
            filter (\<lambda>row. scoreID row \<notin> set (map scoreID (filter (stale osu) scores)))
                   (tables db key))\<rparr>)"
proof (induction scores arbitrary: db)
  case Nil
  then show ?case by simp
next
  case (Cons s scores)
  obtain r where r: "osu_getScore osu (scoreID s) = Inr r" using assms by blast
  show ?case
  proof (cases "stale osu s")
    case True
    then have "removeDuplicateScores_scores osu key (s # scores) db =
        removeDuplicateScores_scores osu key scores (removeScore db (scoreID s) key)"
      using r by (auto simp: stale_def split: option.splits)
    also have "\<dots> = Inr (db\<lparr>tables := (tables db)(key :=
            filter (\<lambda>row. scoreID row \<notin> set (map scoreID (filter (stale osu) (s # scores))))
                   (tables db key))\<rparr>)"
      unfolding Cons.IH using True
      by (auto simp: removeScore_def intro!: filter_cong)
    finally show ?thesis .
  next
    case False
    then have "removeDuplicateScores_scores osu key (s # scores) db =
        removeDuplicateScores_scores osu key scores db"
      using r by (auto simp: stale_def split: option.splits)
    also have "\<dots> = Inr (db\<lparr>tables := (tables db)(key :=
            filter (\<lambda>row. scoreID row \<notin> set (map scoreID (filter (stale osu) scores)))
                   (tables db key))\<rparr>)"
      by (rule Cons.IH)
    also have "\<dots> = Inr (db\<lparr>tables := (tables db)(key :=
            filter (\<lambda>row. scoreID row \<notin> set (map scoreID (filter (stale osu) (s # scores))))
                   (tables db key))\<rparr>)"
      using False by simp
    finally show ?thesis .
  qed
qed

lemma removeDuplicateScores_keys_result:
  assumes "\<And>sid. \<exists>r. osu_getScore osu sid = Inr r"
  shows "distinct keys \<Longrightarrow> removeDuplicateScores_keys osu keys db =
     Inr (db\<lparr>tables := (\<lambda>k. if k \<in> set keys then deduplicated osu (tables db k) else tables db k)\<rparr>)"
proof (induction keys arbitrary: db)
  case Nil
  then show ?case by simp
next
  case (Cons key keys)
  let ?db1 = "db\<lparr>tables := (tables db)(key := deduplicated osu (tables db key))\<rparr>"
  have step: "removeDuplicateScores_scores osu key (getDuplicateScores db key) db = Inr ?db1"
    unfolding removeDuplicateScores_scores_result [OF assms]
    by (simp add: getDuplicateScores_def deduplicated_def duplicates_def)
  have "removeDuplicateScores_keys osu (key # keys) db = removeDuplicateScores_keys osu keys ?db1"
    using step by simp
  also have "\<dots> = Inr (?db1\<lparr>tables := (\<lambda>k. if k \<in> set keys then deduplicated osu (tables ?db1 k) else tables ?db1 k)\<rparr>)"
    using Cons.prems by (intro Cons.IH) simp
  also have "\<dots> = Inr (db\<lparr>tables := (\<lambda>k. if k \<in> set (key # keys) then deduplicated osu (tables db k) else tables db k)\<rparr>)"
    using Cons.prems by (auto simp: fun_eq_iff)
  finally show ?case .
qed

lemma distinct_MORMod_keys: "distinct MORMod_keys"
  by (simp add: MORMod_keys_def MORMod_def)

lemma sql_eq_iff: "sql_eq x y \<longleftrightarrow> (\<exists>a. x = Some a \<and> y = Some a)"
  by (cases x; cases y) auto

lemma duplicateOf_sym: "duplicateOf a b \<Longrightarrow> duplicateOf b a"
  by (auto simp: duplicateOf_def sql_eq_iff)

lemma equalButScoreID_duplicateOf:
  "equalButScoreID a b \<Longrightarrow> noNull a \<Longrightarrow> duplicateOf a b"
  by (cases a; cases b) (auto simp: equalButScoreID_def noNull_def duplicateOf_def sql_eq_iff)

lemma equalButScoreID_noNull:
  "equalButScoreID a b \<Longrightarrow> noNull b = noNull a"
  by (cases a; cases b) (auto simp: equalButScoreID_def noNull_def)

lemma null_not_duplicate:
  "\<not> noNull c \<Longrightarrow> c \<notin> set (duplicates rows)"
  by (auto simp: duplicates_def noNull_def duplicateOf_def sql_eq_iff)

lemma in_duplicates: "a \<in> set (duplicates rows) \<longleftrightarrow> a \<in> set rows \<and> (\<exists>b \<in> set rows. duplicateOf a b)"
  by (auto simp: duplicates_def)

lemma scoreID_unique:
  "distinct (map scoreID rows) \<Longrightarrow> s \<in> set rows \<Longrightarrow> a \<in> set rows \<Longrightarrow> scoreID s = scoreID a \<Longrightarrow> s = a"
  by (meson distinct_map inj_on_eq_iff)

lemma in_deduplicated:
  assumes "distinct (map scoreID rows)" "a \<in> set rows" "b \<in> set rows" "duplicateOf a b"
  shows "a \<in> set (deduplicated osu rows) \<longleftrightarrow> \<not> stale osu a"
proof
  assume "a \<in> set (deduplicated osu rows)"
  then have "scoreID a \<notin> scoreID ` {s \<in> set (duplicates rows). stale osu s}"
    by (simp add: deduplicated_def)
  moreover have "a \<in> set (duplicates rows)" using assms by (auto simp: in_duplicates)
  ultimately show "\<not> stale osu a" by blast
next
  assume ns: "\<not> stale osu a"
  have "scoreID a \<notin> scoreID ` {s \<in> set (duplicates rows). stale osu s}"
  proof
    assume "scoreID a \<in> scoreID ` {s \<in> set (duplicates rows). stale osu s}"
    then obtain s where s: "s \<in> set (duplicates rows)" "stale osu s" "scoreID s = scoreID a" by auto
    then have "s \<in> set rows" by (simp add: in_duplicates)
    then have "s = a" using scoreID_unique [OF assms(1) _ assms(2) s(3)] by simp
    with s ns show False by simp
  qed
  then show "a \<in> set (deduplicated osu rows)" using assms(2) by (simp add: deduplicated_def)
qed

lemma not_duplicate_stays:
  assumes "distinct (map scoreID rows)" "c \<in> set rows" "c \<notin> set (duplicates rows)"
  shows "c \<in> set (deduplicated osu rows)"
proof -
  have "scoreID c \<notin> scoreID ` {s \<in> set (duplicates rows). stale osu s}"
  proof
    assume "scoreID c \<in> scoreID ` {s \<in> set (duplicates rows). stale osu s}"
    then obtain s where s: "s \<in> set (duplicates rows)" "scoreID s = scoreID c" by auto
    then have "s \<in> set rows" by (simp add: in_duplicates)
    then have "s = c" using scoreID_unique [OF assms(1) _ assms(2) s(2)] by simp
    with s assms(3) show False by simp
  qed
  then show ?thesis using assms(2) by (simp add: deduplicated_def)
qed

lemma not_stale_iff:
  assumes "\<And>sid. \<exists>r. osu_getScore osu sid = Inr r"
  shows "\<not> stale osu a \<longleftrightarrow> (\<exists>score. osu_getScore osu (scoreID a) = Inr (Some score) \<and> date a = Some (score_created_at score))"
proof -
  obtain r where "osu_getScore osu (scoreID a) = Inr r" using assms by blast
  then show ?thesis by (cases r) (auto simp: stale_def)
qed

text \<open>
  C6, as the claim states it, fails when the lookup finds only one record of the pair: the
  code decides each record by its own lookup. With two records equal but for \<open>scoreID\<close> and
  without NULL, of which the first is not found and the second is found with the stored date,
  neither case of the claim that deletes applies (not both are missing, none has another
  date), so by the claim both stay; the code deletes the first.
\<close>

theorem removeDuplicateScores_counterexample:
  "equalButScoreID (sampleScore 1 7 300 '''') (sampleScore 2 7 300 '''') \<and>
   noNull (sampleScore 1 7 300 '''') \<and>
   date (sampleScore 2 7 300 '''') = Some (score_created_at (sampleOsuScore 2 7 [])) \<and>
   (case removeDuplicateScores
           (sampleClient (\<lambda>sid. if sid = 1 then Inr None else Inr (Some (sampleOsuScore sid 7 []))))
           (emptyDatabase\<lparr>tables := (tables emptyDatabase)
              (''NM'' := [sampleScore 1 7 300 '''', sampleScore 2 7 300 ''''])\<rparr>) of
      Inl e \<Rightarrow> False
    | Inr db' \<Rightarrow> tables db' ''NM'' = [sampleScore 2 7 300 ''''])"
  by (simp add: removeDuplicateScores_def MORMod_keys_def MORMod_def getDuplicateScores_def
      duplicateOf_def sampleScore_def sampleOsuScore_def sampleClient_def emptyDatabase_def
      removeScore_def equalButScoreID_def noNull_def)

text \<open>
  C6, amended: in the duplicate removal, for a partition with two records equal in every field
  but \<open>scoreID\<close>. When none of the columns that the duplicate query compares (username,
  beatmap, mods, pp, accuracy, starRating, date, beatmapImageURL) is NULL in them, each record
  is decided by its own lookup: a record that the lookup does not find is deleted (so both are
  deleted when both are not found), a record that is found with a \<^verbatim>\<open>created_at\<close> other than
  the stored date is deleted, and a record that is found with the stored date stays. When
  one of these columns is NULL in the two records, the duplicate query does not return them
  (a comparison with NULL is not true), no lookup is made for them and both stay. And when
  every lookup returns (a score or not-found), the procedure completes without an exception.
  The \<open>scoreID\<close>s of the partition are distinct (\<open>scoreID\<close> is its primary key).
\<close>

theorem removeDuplicateScores_policy:
  assumes "\<And>sid. \<exists>r. osu_getScore osu sid = Inr r"
    and "key \<in> set MORMod_keys"
    and "distinct (map scoreID (tables db key))"
    and "a \<in> set (tables db key)" and "b \<in> set (tables db key)" and "equalButScoreID a b"
  shows "\<exists>db'. removeDuplicateScores osu db = Inr db' \<and>
           (noNull a \<longrightarrow>
              (a \<in> set (tables db' key) \<longleftrightarrow>
                 (\<exists>score. osu_getScore osu (scoreID a) = Inr (Some score) \<and>
                          date a = Some (score_created_at score))) \<and>
              (b \<in> set (tables db' key) \<longleftrightarrow>
                 (\<exists>score. osu_getScore osu (scoreID b) = Inr (Some score) \<and>
                          date b = Some (score_created_at score)))) \<and>
           (\<not> noNull a \<longrightarrow> a \<in> set (tables db' key) \<and> b \<in> set (tables db' key))"
proof -
  let ?db' = "db\<lparr>tables := (\<lambda>k. if k \<in> set MORMod_keys then deduplicated osu (tables db k)
                                  else tables db k)\<rparr>"
  have res: "removeDuplicateScores osu db = Inr ?db'"
    unfolding removeDuplicateScores_def
    by (rule removeDuplicateScores_keys_result [OF assms(1) distinct_MORMod_keys])
  have t: "tables ?db' key = deduplicated osu (tables db key)"
    using assms(2) by simp
  have full: "(a \<in> set (tables ?db' key) \<longleftrightarrow> \<not> stale osu a) \<and>
              (b \<in> set (tables ?db' key) \<longleftrightarrow> \<not> stale osu b)" if n: "noNull a"
  proof -
    have d: "duplicateOf a b"
      using assms(6) n by (rule equalButScoreID_duplicateOf)
    have a: "a \<in> set (tables ?db' key) \<longleftrightarrow> \<not> stale osu a"
      unfolding t by (rule in_deduplicated [OF assms(3,4,5) d])
    have b: "b \<in> set (tables ?db' key) \<longleftrightarrow> \<not> stale osu b"
      unfolding t by (rule in_deduplicated [OF assms(3,5,4) duplicateOf_sym [OF d]])
    from a b show ?thesis ..
  qed
  have null: "a \<in> set (tables ?db' key) \<and> b \<in> set (tables ?db' key)" if n: "\<not> noNull a"
  proof -
    have nb: "\<not> noNull b"
      using n equalButScoreID_noNull [OF assms(6)] by simp
    have a: "a \<in> set (tables ?db' key)"
      unfolding t by (rule not_duplicate_stays [OF assms(3,4) null_not_duplicate [OF n]])
    have b: "b \<in> set (tables ?db' key)"
      unfolding t by (rule not_duplicate_stays [OF assms(3,5) null_not_duplicate [OF nb]])
    from a b show ?thesis ..
  qed
  show ?thesis
    using res full null not_stale_iff [OF assms(1)] by blast
qed

theorem removeDuplicateScores_policy_witness:
  "''NM'' \<in> set MORMod_keys \<and>
   equalButScoreID (sampleScore 1 7 300 '''') (sampleScore 2 7 300 '''') \<and>
   noNull (sampleScore 1 7 300 '''') \<and>
   (\<exists>db'. removeDuplicateScores (sampleClient (\<lambda>sid. Inr None))
            (emptyDatabase\<lparr>tables := (tables emptyDatabase)
               (''NM'' := [sampleScore 1 7 300 '''', sampleScore 2 7 300 ''''])\<rparr>) = Inr db' \<and>
          sampleScore 1 7 300 '''' \<notin> set (tables db' ''NM'') \<and>
          sampleScore 2 7 300 '''' \<notin> set (tables db' ''NM'')) \<and>
   equalButScoreID ((sampleScore 1 7 300 '''')\<lparr>pp := None\<rparr>)
     ((sampleScore 2 7 300 '''')\<lparr>pp := None\<rparr>) \<and>
   \<not> noNull ((sampleScore 1 7 300 '''')\<lparr>pp := None\<rparr>) \<and>
   (\<exists>db'. removeDuplicateScores (sampleClient (\<lambda>sid. Inr None))
            (emptyDatabase\<lparr>tables := (tables emptyDatabase)
               (''NM'' := [(sampleScore 1 7 300 '''')\<lparr>pp := None\<rparr>,
                           (sampleScore 2 7 300 '''')\<lparr>pp := None\<rparr>])\<rparr>) = Inr db' \<and>
          (sampleScore 1 7 300 '''')\<lparr>pp := None\<rparr> \<in> set (tables db' ''NM'') \<and>
          (sampleScore 2 7 300 '''')\<lparr>pp := None\<rparr> \<in> set (tables db' ''NM''))"
proof -
  let ?osu = "sampleClient (\<lambda>sid. Inr None)"
  let ?a = "sampleScore 1 7 300 ''''" and ?b = "sampleScore 2 7 300 ''''"
  let ?db = "emptyDatabase\<lparr>tables := (tables emptyDatabase)(''NM'' := [?a, ?b])\<rparr>"
  let ?an = "?a\<lparr>pp := None\<rparr>" and ?bn = "?b\<lparr>pp := None\<rparr>"
  let ?dbn = "emptyDatabase\<lparr>tables := (tables emptyDatabase)(''NM'' := [?an, ?bn])\<rparr>"
  have 1: "\<exists>r. osu_getScore ?osu sid = Inr r" for sid
    by (simp add: sampleClient_def)
  have 2: "''NM'' \<in> set MORMod_keys"
    by (simp add: MORMod_keys_def MORMod_def)
  have 3: "distinct (map scoreID (tables ?db ''NM''))"
    by (simp add: sampleScore_def)
  have 4: "?a \<in> set (tables ?db ''NM'')"
    by simp
  have 5: "?b \<in> set (tables ?db ''NM'')"
    by simp
  have 6: "equalButScoreID ?a ?b"
    by (simp add: equalButScoreID_def sampleScore_def)
  have 7: "noNull ?a"
    by (simp add: noNull_def sampleScore_def)
  have n3: "distinct (map scoreID (tables ?dbn ''NM''))"
    by (simp add: sampleScore_def)
  have n4: "?an \<in> set (tables ?dbn ''NM'')"
    by simp
  have n5: "?bn \<in> set (tables ?dbn ''NM'')"
    by simp
  have n6: "equalButScoreID ?an ?bn"
    by (simp add: equalButScoreID_def sampleScore_def)
  have n7: "\<not> noNull ?an"
    by (simp add: noNull_def)
  have p: "\<exists>db'. removeDuplicateScores ?osu ?db = Inr db' \<and>
          ?a \<notin> set (tables db' ''NM'') \<and> ?b \<notin> set (tables db' ''NM'')"
    using removeDuplicateScores_policy [of ?osu "''NM''" ?db, OF 1 2 3 4 5 6] 7
    by (simp add: sampleClient_def)
  have q: "\<exists>db'. removeDuplicateScores ?osu ?dbn = Inr db' \<and>
          ?an \<in> set (tables db' ''NM'') \<and> ?bn \<in> set (tables db' ''NM'')"
    using removeDuplicateScores_policy [of ?osu "''NM''" ?dbn, OF 1 2 n3 n4 n5 n6] n7
    by blast
  from 2 6 7 p n6 n7 q show ?thesis
    by blast
qed

section \<open>Rank recount\<close>























section \<open>Ingest of new scores\<close>

text \<open>A score whose modifiers have no key ends the loop over the scores, whatever follows it.\<close>

lemma getNewScores_scores_unknown_mods:
  "convertOsuMods (score_mods userScore) = Inl (TypeError m) \<Longrightarrow>
   getNewScores_scores osu (userScore # rest) db = Returned db"
  by simp

lemma getNewScores_users_returned:
  "userScoreLists osu uid = Inr userScores \<Longrightarrow>
   getNewScores_scores osu userScores db = Returned db' \<Longrightarrow>
   getNewScores_users osu (uid # rest) db = Returned db'"
  by simp

text \<open>
  C2: the code does not do what the claim says. The conversion does fail with a TypeError for
  a modifier list without key, and \<open>getNewScores\<close> catches it and logs that it skips the
  score; but the \<^verbatim>\<open>catch\<close> block then executes \<^verbatim>\<open>return\<close>, which ends the whole procedure.
  Here user 1 has a score with the modifier RX followed by one without modifiers, and user 2
  has a score with HD: the run with the RX score returns the database as it was, with neither
  of the two other scores; without the RX score the same run stores both.
\<close>

theorem getNewScores_aborts_batch:
  "convertOsuMods [''RX''] = Inl (TypeError ''stringToMORMod - RX has no associated MORMod!'') \<and>
   getAutotrackUserIDs (emptyDatabase\<lparr>USERS := [sampleUser 1 True, sampleUser 2 True]\<rparr>) = [1, 2] \<and>
   getNewScores
     (sampleListClient (\<lambda>uid. if uid = 1 then [sampleOsuScore 10 1 [''RX''], sampleOsuScore 11 1 []]
                              else [sampleOsuScore 20 uid [''HD'']]))
     (emptyDatabase\<lparr>USERS := [sampleUser 1 True, sampleUser 2 True]\<rparr>) =
     Inr (emptyDatabase\<lparr>USERS := [sampleUser 1 True, sampleUser 2 True]\<rparr>) \<and>
   (case getNewScores
     (sampleListClient (\<lambda>uid. if uid = 1 then [sampleOsuScore 11 1 []]
                              else [sampleOsuScore 20 uid [''HD'']]))
     (emptyDatabase\<lparr>USERS := [sampleUser 1 True, sampleUser 2 True]\<rparr>) of
      Inl e \<Rightarrow> False
    | Inr db' \<Rightarrow> map scoreID (tables db' ''NM'') = [11] \<and> map scoreID (tables db' ''HD'') = [20])"
proof -
  let ?db = "emptyDatabase\<lparr>USERS := [sampleUser 1 True, sampleUser 2 True]\<rparr>"
  have rx: "convertOsuMods [''RX''] = Inl (TypeError ''stringToMORMod - RX has no associated MORMod!'')"
    by (simp add: convertOsuMods_eval)
  have nm: "convertOsuMods [] = Inr ''NM''" and hd: "convertOsuMods [''HD''] = Inr ''HD''"
    and hd': "convertOsuMods (modStringToArray ''HD'') = Inr ''HD''"
    and nm': "convertOsuMods (modStringToArray '''') = Inr ''NM''"
    by (simp_all add: convertOsuMods_eval)
  have ids: "getAutotrackUserIDs ?db = [1, 2]"
    by (simp add: getAutotrackUserIDs_def sampleUser_def)
  have 1: "getNewScores
     (sampleListClient (\<lambda>uid. if uid = 1 then [sampleOsuScore 10 1 [''RX''], sampleOsuScore 11 1 []]
                              else [sampleOsuScore 20 uid [''HD'']])) ?db = Inr ?db"
    by (simp add: getNewScores_def getAutotrackUserIDs_def sampleUser_def userScoreLists_def
        sampleListClient_def sampleOsuScore_def rx)
  have 2: "(case getNewScores
     (sampleListClient (\<lambda>uid. if uid = 1 then [sampleOsuScore 11 1 []]
                              else [sampleOsuScore 20 uid [''HD'']])) ?db of
      Inl e \<Rightarrow> False
    | Inr db' \<Rightarrow> map scoreID (tables db' ''NM'') = [11] \<and> map scoreID (tables db' ''HD'') = [20])"
    by (simp add: getNewScores_def getAutotrackUserIDs_def sampleUser_def userScoreLists_def
        sampleListClient_def sampleOsuScore_def
        nm hd hd' nm' scoreExistsInTable_def emptyDatabase_def osuScoreToMORScore_def
        modifiedStarRating_def affectsStarRating_def insertScore_def sqlite_insert_score_def
        replaceAll_comma_def)
  from rx ids 1 2 show ?thesis
    by simp
qed

end
